theory Spec2Isabelle
  imports Complex_Main "HOL-Library.Char_ord" "HOL-Library.List_Lexorder"
begin

section \<open>The analyzer record (data-models: class Analyzer)\<close>

text \<open>
  The fields of the class \<^verbatim>\<open>Analyzer\<close>. The fields \<^verbatim>\<open>id\<close> and
  \<^verbatim>\<open>weight\<close> carry the prefix \<open>an_\<close>, since records of one theory share a name
  space. The counters are JavaScript numbers that are only ever incremented from 0;
  they are natural numbers here. A stored weight is a finite number, a real here;
  response times (differences of \<^verbatim>\<open>Date.now()\<close>) are integers. \<^verbatim>\<open>lastSeen\<close> is the
  ISO string of \<^verbatim>\<open>new Date()\<close>, which every function that reads the clock takes
  as the argument \<open>now\<close>.
\<close>

record Analyzer =
  an_id :: string
  endpoint :: string
  an_weight :: real
  healthy :: bool
  lastSeen :: string
  consecutiveFailures :: nat
  consecutiveSuccesses :: nat
  totalChecks :: nat
  totalFailures :: nat
  lastResponseTime :: int

text \<open>
  \<^verbatim>\<open>constructor(id, endpoint, weight = 1.0)\<close>: an absent weight (\<open>None\<close>) is the
  default parameter value.
\<close>

definition Analyzer_new :: "string \<Rightarrow> string \<Rightarrow> real option \<Rightarrow> string \<Rightarrow> Analyzer" where
  "Analyzer_new i ep w now =
     \<lparr> an_id = i,
       endpoint = ep,
       an_weight = (case w of None \<Rightarrow> 1 | Some x \<Rightarrow> x),
       healthy = True,
       lastSeen = now,
       consecutiveFailures = 0,
       consecutiveSuccesses = 0,
       totalChecks = 0,
       totalFailures = 0,
       lastResponseTime = 0 \<rparr>"

text \<open>
  \<^verbatim>\<open>updateHealth(success, responseTime = 0)\<close>. Both thresholds are the literal
  3 of the source.
\<close>

definition updateHealth :: "Analyzer \<Rightarrow> bool \<Rightarrow> int \<Rightarrow> string \<Rightarrow> Analyzer" where
  "updateHealth a success responseTime now =
     (let a1 = a\<lparr> totalChecks := totalChecks a + 1, lastResponseTime := responseTime \<rparr> in
      if success then
        (let a2 = a1\<lparr> consecutiveSuccesses := consecutiveSuccesses a1 + 1,
                       consecutiveFailures := 0,
                       lastSeen := now \<rparr>
         in if 3 \<le> consecutiveSuccesses a2 then a2\<lparr> healthy := True \<rparr> else a2)
      else
        (let a2 = a1\<lparr> totalFailures := totalFailures a1 + 1,
                       consecutiveFailures := consecutiveFailures a1 + 1,
                       consecutiveSuccesses := 0 \<rparr>
         in if 3 \<le> consecutiveFailures a2 then a2\<lparr> healthy := False \<rparr> else a2))"

text \<open>
  A finite sequence of \<^verbatim>\<open>updateHealth\<close> calls on one analyzer; each call is given
  by its outcome, its response time and the clock reading.
\<close>

fun updateHealth_seq :: "Analyzer \<Rightarrow> (bool \<times> int \<times> string) list \<Rightarrow> Analyzer" where
  "updateHealth_seq a [] = a"
| "updateHealth_seq a ((success, responseTime, now) # calls) =
     updateHealth_seq (updateHealth a success responseTime now) calls"

text \<open>
  JavaScript's \<^verbatim>\<open>/\<close> never raises: a zero divisor yields \<^verbatim>\<open>NaN\<close> or an
  infinity. \<open>None\<close> stands for these non-finite results.
\<close>

definition js_div :: "real \<Rightarrow> real \<Rightarrow> real option" where
  "js_div x y = (if y = 0 then None else Some (x / y))"

text \<open>\<^verbatim>\<open>getFailureRate()\<close>\<close>

definition getFailureRate :: "Analyzer \<Rightarrow> real option" where
  "getFailureRate a =
     (if totalChecks a = 0 then Some 0
      else map_option (\<lambda>q. q * 100) (js_div (real (totalFailures a)) (real (totalChecks a))))"


section \<open>JavaScript values\<close>

text \<open>
  The fields of a log message are untyped in the source: \<^verbatim>\<open>fromJSON\<close> copies
  whatever the parsed request body holds. A value is one of the JavaScript value
  kinds; an object is the list of its own properties. Finite numbers are reals and
  \<open>JNaN\<close> is the not-a-number value.
\<close>

datatype jsval =
    JUndefined
  | JNull
  | JBool bool
  | JNum real
  | JNaN
  | JStr string
  | JArr "jsval list"
  | JObj "(string \<times> jsval) list"

text \<open>Truthiness, as \<^verbatim>\<open>&&\<close>, \<^verbatim>\<open>||\<close>, \<^verbatim>\<open>!\<close> and \<^verbatim>\<open>if\<close> read a value.\<close>

fun truthy :: "jsval \<Rightarrow> bool" where
  "truthy JUndefined = False"
| "truthy JNull = False"
| "truthy (JBool b) = b"
| "truthy (JNum x) = (x \<noteq> 0)"
| "truthy JNaN = False"
| "truthy (JStr s) = (s \<noteq> [])"
| "truthy (JArr xs) = True"
| "truthy (JObj kvs) = True"

text \<open>\<^verbatim>\<open>a || b\<close>\<close>

definition js_or :: "jsval \<Rightarrow> jsval \<Rightarrow> jsval" where
  "js_or a b = (if truthy a then a else b)"

datatype js_error = TypeError string | Error string

text \<open>
  Property access \<^verbatim>\<open>v.k\<close> for the property names the data model reads
  (\<^verbatim>\<open>id\<close>, \<^verbatim>\<open>timestamp\<close>, \<^verbatim>\<open>level\<close>, \<^verbatim>\<open>source\<close>, \<^verbatim>\<open>message\<close>,
  \<^verbatim>\<open>metadata\<close>): it throws a TypeError on \<^verbatim>\<open>undefined\<close> and \<^verbatim>\<open>null\<close>, finds
  an own property of an object, and is \<^verbatim>\<open>undefined\<close> otherwise (no primitive
  wrapper or array has a property of one of these names).
\<close>

fun js_get :: "jsval \<Rightarrow> string \<Rightarrow> js_error + jsval" where
  "js_get JUndefined k = Inl (TypeError ''Cannot read properties of undefined'')"
| "js_get JNull k = Inl (TypeError ''Cannot read properties of null'')"
| "js_get (JObj kvs) k = Inr (case map_of kvs k of None \<Rightarrow> JUndefined | Some v \<Rightarrow> v)"
| "js_get v k = Inr JUndefined"

text \<open>The value read where the access cannot throw any more.\<close>

definition js_prop :: "jsval \<Rightarrow> string \<Rightarrow> jsval" where
  "js_prop v k = (case js_get v k of Inl e \<Rightarrow> JUndefined | Inr x \<Rightarrow> x)"


section \<open>Log messages (data-models: LogLevel, class LogMessage)\<close>

definition LogLevel_values :: "jsval list" where
  "LogLevel_values = [JStr ''DEBUG'', JStr ''INFO'', JStr ''WARN'', JStr ''ERROR'', JStr ''FATAL'']"

record LogMessage =
  msg_id :: jsval
  msg_timestamp :: jsval
  level :: jsval
  source :: jsval
  message :: jsval
  metadata :: jsval

text \<open>
  \<^verbatim>\<open>constructor(level, source, message, metadata = {})\<close>. The constructor draws
  \<^verbatim>\<open>uuid()\<close> and reads the clock; both results are arguments here (\<open>fresh\<close>,
  \<open>now\<close>). The default \<^verbatim>\<open>{}\<close> replaces an \<^verbatim>\<open>undefined\<close> argument only.
\<close>

definition LogMessage_new :: "string \<Rightarrow> string \<Rightarrow> jsval \<Rightarrow> jsval \<Rightarrow> jsval \<Rightarrow> jsval \<Rightarrow> LogMessage" where
  "LogMessage_new fresh now lv src msg md =
     \<lparr> msg_id = JStr fresh,
       msg_timestamp = JStr now,
       level = lv,
       source = src,
       message = msg,
       metadata = (if md = JUndefined then JObj [] else md) \<rparr>"

text \<open>
  \<^verbatim>\<open>isValid()\<close>, read as a condition. \<^verbatim>\<open>Object.values(LogLevel).includes\<close>
  compares with the five level strings.
\<close>

definition LogMessage_isValid :: "LogMessage \<Rightarrow> bool" where
  "LogMessage_isValid m =
     (truthy (msg_id m) \<and>
      truthy (msg_timestamp m) \<and>
      level m \<in> set LogLevel_values \<and>
      truthy (source m) \<and>
      truthy (message m))"

text \<open>\<^verbatim>\<open>toJSON()\<close>: an object literal with the six fields.\<close>

definition LogMessage_toJSON :: "LogMessage \<Rightarrow> jsval" where
  "LogMessage_toJSON m =
     JObj [(''id'', msg_id m),
           (''timestamp'', msg_timestamp m),
           (''level'', level m),
           (''source'', source m),
           (''message'', message m),
           (''metadata'', metadata m)]"

text \<open>
  \<^verbatim>\<open>static fromJSON(json)\<close>. The first property read throws when \<open>json\<close> is
  \<^verbatim>\<open>undefined\<close> or \<^verbatim>\<open>null\<close>; after it every read succeeds.
\<close>

definition LogMessage_fromJSON :: "string \<Rightarrow> string \<Rightarrow> jsval \<Rightarrow> js_error + LogMessage" where
  "LogMessage_fromJSON fresh now json =
     (case js_get json ''level'' of
        Inl e \<Rightarrow> Inl e
      | Inr lv \<Rightarrow>
          (let m = LogMessage_new fresh now lv (js_prop json ''source'')
                     (js_prop json ''message'') (js_prop json ''metadata'');
               m1 = m\<lparr> msg_id := js_or (js_prop json ''id'') (msg_id m) \<rparr>;
               m2 = m1\<lparr> msg_timestamp := js_or (js_prop json ''timestamp'') (msg_timestamp m1) \<rparr>
           in Inr m2))"


text \<open>
  \<^verbatim>\<open>class LogPacket\<close>, with its messages already converted to
  \<^verbatim>\<open>LogMessage\<close> instances by the constructor.
\<close>

record LogPacket =
  pkt_id :: jsval
  agentId :: jsval
  pkt_timestamp :: jsval
  messages :: "LogMessage list"

text \<open>\<^verbatim>\<open>LogPacket.isValid()\<close>; \<^verbatim>\<open>messages\<close> is an array by its type.\<close>

definition LogPacket_isValid :: "LogPacket \<Rightarrow> bool" where
  "LogPacket_isValid p =
     (truthy (pkt_id p) \<and>
      truthy (agentId p) \<and>
      truthy (pkt_timestamp p) \<and>
      list_all LogMessage_isValid (messages p))"


section \<open>The weighted distributor (class WeightedDistributor)\<close>

subsection \<open>The insertion-ordered Map\<close>

text \<open>
  \<^verbatim>\<open>this.analyzers\<close> is a JavaScript \<^verbatim>\<open>Map\<close>, which iterates in insertion
  order: \<^verbatim>\<open>set\<close> on a key already present replaces the value where the entry
  stands, \<^verbatim>\<open>set\<close> on a new key appends, \<^verbatim>\<open>delete\<close> removes the entry. The
  selector and the status listing iterate the map, so the order is part of the state.
\<close>

fun Map_set :: "('k \<times> 'v) list \<Rightarrow> 'k \<Rightarrow> 'v \<Rightarrow> ('k \<times> 'v) list" where
  "Map_set [] k v = [(k, v)]"
| "Map_set ((k', v') # kvs) k v =
     (if k' = k then (k, v) # kvs else (k', v') # Map_set kvs k v)"

definition Map_get :: "('k \<times> 'v) list \<Rightarrow> 'k \<Rightarrow> 'v option" where
  "Map_get kvs k = map_of kvs k"

definition Map_delete :: "('k \<times> 'v) list \<Rightarrow> 'k \<Rightarrow> ('k \<times> 'v) list" where
  "Map_delete kvs k = filter (\<lambda>kv. fst kv \<noteq> k) kvs"

definition Map_values :: "('k \<times> 'v) list \<Rightarrow> 'v list" where
  "Map_values kvs = map snd kvs"

subsection \<open>State\<close>

text \<open>
  A queued packet, as \<^verbatim>\<open>distributePacket\<close> pushes it. The state holds the
  configuration, the analyzers, the queue and the counters of \<^verbatim>\<open>this.stats\<close>
  that the functions below write. Event emission (\<^verbatim>\<open>this.emit\<close>) reaches only
  logging listeners and is left out; the functions are modelled as they run without
  interleaving, one call after the other.
\<close>

record QueuedPacket =
  qp_id :: string
  qp_messages :: "string list"
  qp_timestamp :: int

record Distributor =
  maxQueueSize :: int
  batchSize :: int
  analyzers :: "(string \<times> Analyzer) list"
  packetQueue :: "QueuedPacket list"
  packetsReceived :: nat
  packetsProcessed :: nat
  packetsDropped :: nat
  errors :: nat

text \<open>\<^verbatim>\<open>options.x || d\<close> for an optional number.\<close>

definition num_or :: "int option \<Rightarrow> int \<Rightarrow> int" where
  "num_or x d = (case x of None \<Rightarrow> d | Some n \<Rightarrow> if n = 0 then d else n)"

definition WeightedDistributor_new :: "int option \<Rightarrow> int option \<Rightarrow> Distributor" where
  "WeightedDistributor_new opt_maxQueueSize opt_batchSize =
     \<lparr> maxQueueSize = num_or opt_maxQueueSize 10000,
       batchSize = num_or opt_batchSize 100,
       analyzers = [],
       packetQueue = [],
       packetsReceived = 0,
       packetsProcessed = 0,
       packetsDropped = 0,
       errors = 0 \<rparr>"

subsection \<open>Double arithmetic\<close>

text \<open>
  JavaScript numbers are IEEE doubles: a value is a finite number, an infinity or
  not-a-number (the two zeros are not told apart, since nothing below divides). The
  stored weights and the value of \<^verbatim>\<open>Math.random()\<close> are finite. The comparison
  \<^verbatim>\<open><=\<close> is exact on doubles and is defined here.
\<close>

datatype jsnum = Finite real | Infinity | NegInfinity | NaN

fun js_le :: "jsnum \<Rightarrow> jsnum \<Rightarrow> bool" where
  "js_le NaN y = False"
| "js_le x NaN = False"
| "js_le NegInfinity y = True"
| "js_le x Infinity = True"
| "js_le Infinity y = False"
| "js_le x NegInfinity = False"
| "js_le (Finite a) (Finite b) = (a \<le> b)"

text \<open>
  Addition and multiplication of doubles round their result and overflow to an
  infinity. The selector takes the two operations as the argument \<open>fl\<close>, so that
  what is proved of it holds of whatever they compute.
\<close>

record double_arith =
  dadd :: "jsnum \<Rightarrow> jsnum \<Rightarrow> jsnum"
  dmul :: "jsnum \<Rightarrow> jsnum \<Rightarrow> jsnum"

text \<open>
  The two operations without rounding. A double operation returns the exact result
  whenever that is a double, so on such operands (small integers and dyadic
  fractions, as in the examples of this theory) these are the operations of the
  program.
\<close>

fun exact_add :: "jsnum \<Rightarrow> jsnum \<Rightarrow> jsnum" where
  "exact_add NaN y = NaN"
| "exact_add x NaN = NaN"
| "exact_add Infinity NegInfinity = NaN"
| "exact_add NegInfinity Infinity = NaN"
| "exact_add Infinity y = Infinity"
| "exact_add x Infinity = Infinity"
| "exact_add NegInfinity y = NegInfinity"
| "exact_add x NegInfinity = NegInfinity"
| "exact_add (Finite a) (Finite b) = Finite (a + b)"

fun exact_mul :: "jsnum \<Rightarrow> jsnum \<Rightarrow> jsnum" where
  "exact_mul NaN y = NaN"
| "exact_mul x NaN = NaN"
| "exact_mul (Finite a) (Finite b) = Finite (a * b)"
| "exact_mul (Finite a) Infinity = (if a = 0 then NaN else if 0 < a then Infinity else NegInfinity)"
| "exact_mul (Finite a) NegInfinity = (if a = 0 then NaN else if 0 < a then NegInfinity else Infinity)"
| "exact_mul Infinity (Finite b) = (if b = 0 then NaN else if 0 < b then Infinity else NegInfinity)"
| "exact_mul NegInfinity (Finite b) = (if b = 0 then NaN else if 0 < b then NegInfinity else Infinity)"
| "exact_mul Infinity Infinity = Infinity"
| "exact_mul Infinity NegInfinity = NegInfinity"
| "exact_mul NegInfinity Infinity = NegInfinity"
| "exact_mul NegInfinity NegInfinity = Infinity"

definition exact_arith :: double_arith where
  "exact_arith = \<lparr> dadd = exact_add, dmul = exact_mul \<rparr>"

subsection \<open>Registry operations\<close>

text \<open>
  \<^verbatim>\<open>addAnalyzer(analyzer)\<close>; the \<^verbatim>\<open>instanceof\<close> check holds by the type.
\<close>

definition addAnalyzer :: "Distributor \<Rightarrow> Analyzer \<Rightarrow> Distributor" where
  "addAnalyzer d analyzer =
     d\<lparr> analyzers := Map_set (analyzers d) (an_id analyzer) analyzer \<rparr>"

definition removeAnalyzer :: "Distributor \<Rightarrow> string \<Rightarrow> Distributor" where
  "removeAnalyzer d analyzerId =
     (case Map_get (analyzers d) analyzerId of
        None \<Rightarrow> d
      | Some analyzer \<Rightarrow> d\<lparr> analyzers := Map_delete (analyzers d) analyzerId \<rparr>)"

text \<open>
  \<^verbatim>\<open>updateAnalyzerHealth(analyzerId, healthy, responseTime = 0)\<close> mutates the
  stored object, which keeps its place in the map.
\<close>

definition updateAnalyzerHealth :: "Distributor \<Rightarrow> string \<Rightarrow> bool \<Rightarrow> int \<Rightarrow> string \<Rightarrow> Distributor" where
  "updateAnalyzerHealth d analyzerId h responseTime now =
     (case Map_get (analyzers d) analyzerId of
        None \<Rightarrow> d
      | Some analyzer \<Rightarrow>
          d\<lparr> analyzers := Map_set (analyzers d) analyzerId (updateHealth analyzer h responseTime now) \<rparr>)"

definition getHealthyAnalyzers :: "Distributor \<Rightarrow> Analyzer list" where
  "getHealthyAnalyzers d = filter healthy (Map_values (analyzers d))"

text \<open>
  \<^verbatim>\<open>getTotalWeight()\<close>: \<^verbatim>\<open>reduce\<close> adds the weights from the left, starting
  at 0.
\<close>

definition getTotalWeight :: "double_arith \<Rightarrow> Distributor \<Rightarrow> jsnum" where
  "getTotalWeight fl d =
     foldl (\<lambda>sum analyzer. dadd fl sum (Finite (an_weight analyzer))) (Finite 0)
       (getHealthyAnalyzers d)"

subsection \<open>Selection\<close>

text \<open>
  The \<^verbatim>\<open>for\<close> loop of \<^verbatim>\<open>selectAnalyzer\<close>: \<open>None\<close> when the loop ends without
  returning.
\<close>

fun selectLoop :: "double_arith \<Rightarrow> jsnum \<Rightarrow> jsnum \<Rightarrow> Analyzer list \<Rightarrow> Analyzer option" where
  "selectLoop fl random cumulativeWeight [] = None"
| "selectLoop fl random cumulativeWeight (analyzer # rest) =
     (let cumulativeWeight' = dadd fl cumulativeWeight (Finite (an_weight analyzer)) in
      if js_le random cumulativeWeight' then Some analyzer
      else selectLoop fl random cumulativeWeight' rest)"

text \<open>
  \<^verbatim>\<open>selectAnalyzer()\<close>; \<open>u\<close> is the value of \<^verbatim>\<open>Math.random()\<close>, a double in
  \<open>[0, 1)\<close>, and \<open>None\<close> is \<^verbatim>\<open>null\<close>. The sum, the product and the cumulative
  weights are computed with the double operations \<open>fl\<close>.
\<close>

definition selectAnalyzer :: "double_arith \<Rightarrow> Distributor \<Rightarrow> real \<Rightarrow> Analyzer option" where
  "selectAnalyzer fl d u =
     (let healthyAnalyzers = getHealthyAnalyzers d in
      if length healthyAnalyzers = 0 then None
      else if length healthyAnalyzers = 1 then Some (healthyAnalyzers ! 0)
      else
        (let totalWeight = getTotalWeight fl d in
         if totalWeight = Finite 0 then None
         else
           (let random = dmul fl (Finite u) totalWeight in
            case selectLoop fl random (Finite 0) healthyAnalyzers of
              Some analyzer \<Rightarrow> Some analyzer
            | None \<Rightarrow> Some (healthyAnalyzers ! (length healthyAnalyzers - 1)))))"

subsection \<open>Sending\<close>

text \<open>
  What the analyzer's HTTP server does with one request: it answers with a status
  code, or no response arrives (connection failure or timeout).
\<close>

datatype http_outcome = Response nat | NoResponse

text \<open>
  \<^verbatim>\<open>this.httpClient.post\<close> of the distributor: the client is created with
  \<^verbatim>\<open>validateStatus: (status) => status < 500\<close>, so it resolves with the response
  for a status below 500 and rejects otherwise.
\<close>

definition distributor_httpClient_post :: "http_outcome \<Rightarrow> js_error + nat" where
  "distributor_httpClient_post outcome =
     (case outcome of
        NoResponse \<Rightarrow> Inl (Error ''no response'')
      | Response status \<Rightarrow>
          if status < 500 then Inr status else Inl (Error ''Request failed with status code''))"

text \<open>
  The \<^verbatim>\<open>try\<close> block of \<^verbatim>\<open>sendToAnalyzer\<close> up to the status check. \<open>parsed\<close>
  is the result of \<^verbatim>\<open>JSON.parse(message)\<close>; building the request body reads
  \<^verbatim>\<open>logData.id\<close> first.
\<close>

definition sendAttempt :: "js_error + jsval \<Rightarrow> http_outcome \<Rightarrow> js_error + unit" where
  "sendAttempt parsed outcome =
     (case parsed of
        Inl e \<Rightarrow> Inl (Error ''Invalid message format'')
      | Inr logData \<Rightarrow>
          (case js_get logData ''id'' of
             Inl e \<Rightarrow> Inl e
           | Inr i \<Rightarrow>
               (case distributor_httpClient_post outcome of
                  Inl e \<Rightarrow> Inl e
                | Inr status \<Rightarrow>
                    if 200 \<le> status \<and> status < 300 then Inr ()
                    else Inl (Error ''Analyzer returned status''))))"

text \<open>
  \<^verbatim>\<open>sendToAnalyzer(analyzer, message)\<close>: the success branch records a success; the
  \<^verbatim>\<open>catch\<close> block records a failure and throws again. \<open>responseTime\<close> is the
  measured \<^verbatim>\<open>Date.now() - startTime\<close>.
\<close>

definition sendToAnalyzer ::
  "Distributor \<Rightarrow> Analyzer \<Rightarrow> js_error + jsval \<Rightarrow> http_outcome \<Rightarrow> int \<Rightarrow> string \<Rightarrow> Distributor \<times> (js_error + unit)" where
  "sendToAnalyzer d analyzer parsed outcome responseTime now =
     (case sendAttempt parsed outcome of
        Inr ok \<Rightarrow> (updateAnalyzerHealth d (an_id analyzer) True responseTime now, Inr ())
      | Inl e \<Rightarrow>
          (updateAnalyzerHealth d (an_id analyzer) False responseTime now,
           Inl (Error ''Failed to send to analyzer'')))"

text \<open>
  \<^verbatim>\<open>distribute(logMessage)\<close>. Its \<^verbatim>\<open>catch\<close> block calls
  \<^verbatim>\<open>updateAnalyzerHealth(analyzer.id, false)\<close>, with the default response time 0.
\<close>

definition distribute ::
  "double_arith \<Rightarrow> Distributor \<Rightarrow> real \<Rightarrow> js_error + jsval \<Rightarrow> http_outcome \<Rightarrow> int \<Rightarrow> string \<Rightarrow> Distributor \<times> (js_error + bool)" where
  "distribute fl d u parsed outcome responseTime now =
     (case selectAnalyzer fl d u of
        None \<Rightarrow> (d\<lparr> errors := errors d + 1 \<rparr>, Inl (Error ''No healthy analyzers available''))
      | Some analyzer \<Rightarrow>
          (case sendToAnalyzer d analyzer parsed outcome responseTime now of
             (d', Inr ok) \<Rightarrow> (d', Inr True)
           | (d', Inl e) \<Rightarrow>
               (updateAnalyzerHealth (d'\<lparr> errors := errors d' + 1 \<rparr>) (an_id analyzer) False 0 now,
                Inl e)))"

subsection \<open>The queue\<close>

text \<open>
  \<^verbatim>\<open>distributePacket(logPacket)\<close>; the packet is a list by its type. \<open>pid\<close> is
  the generated packet id and \<open>startTime\<close> the value of \<^verbatim>\<open>Date.now()\<close>.
\<close>

definition distributePacket ::
  "Distributor \<Rightarrow> string list \<Rightarrow> string \<Rightarrow> int \<Rightarrow> Distributor \<times> (js_error + unit)" where
  "distributePacket d logPacket pid startTime =
     (let d1 = d\<lparr> packetsReceived := packetsReceived d + 1 \<rparr> in
      if maxQueueSize d1 \<le> int (length (packetQueue d1)) then
        (d1\<lparr> packetsDropped := packetsDropped d1 + 1 \<rparr>,
         Inl (Error ''Queue full - applying backpressure''))
      else
        (d1\<lparr> packetQueue := packetQueue d1 @
               [\<lparr> qp_id = pid, qp_messages = logPacket, qp_timestamp = startTime \<rparr>] \<rparr>,
         Inr ()))"


section \<open>The health checker (class HealthChecker)\<close>

record HealthChecker =
  checkInterval :: int
  timeout :: int
  failureThreshold :: int
  successThreshold :: int

text \<open>The constructor: each option defaults with \<^verbatim>\<open>||\<close>.\<close>

definition HealthChecker_new :: "int option \<Rightarrow> int option \<Rightarrow> int option \<Rightarrow> int option \<Rightarrow> HealthChecker" where
  "HealthChecker_new opt_checkInterval opt_timeout opt_failureThreshold opt_successThreshold =
     \<lparr> checkInterval = num_or opt_checkInterval 30000,
       timeout = num_or opt_timeout 5000,
       failureThreshold = num_or opt_failureThreshold 3,
       successThreshold = num_or opt_successThreshold 3 \<rparr>"

text \<open>
  \<^verbatim>\<open>performHealthCheck(endpoint)\<close>: the checker's client accepts the statuses
  200 to 299 and rejects every other response; the function returns \<^verbatim>\<open>true\<close> or
  throws.
\<close>

definition performHealthCheck :: "http_outcome \<Rightarrow> js_error + bool" where
  "performHealthCheck outcome =
     (case outcome of
        NoResponse \<Rightarrow> Inl (Error ''Health check failed'')
      | Response status \<Rightarrow>
          if 200 \<le> status \<and> status < 300 then Inr (200 \<le> status \<and> status < 300)
          else Inl (Error ''Health check failed with status''))"

text \<open>
  \<^verbatim>\<open>checkAnalyzerHealth(analyzerId, endpoint)\<close>. The checker's own fields are not
  read: the outcome goes to \<^verbatim>\<open>distributor.updateAnalyzerHealth\<close>.
\<close>

definition checkAnalyzerHealth ::
  "HealthChecker \<Rightarrow> Distributor \<Rightarrow> string \<Rightarrow> http_outcome \<Rightarrow> int \<Rightarrow> string \<Rightarrow> Distributor" where
  "checkAnalyzerHealth hc d analyzerId outcome responseTime now =
     (case performHealthCheck outcome of
        Inr isHealthy \<Rightarrow> updateAnalyzerHealth d analyzerId isHealthy responseTime now
      | Inl e \<Rightarrow> updateAnalyzerHealth d analyzerId False responseTime now)"


section \<open>The web server (class LogsDistributorServer)\<close>

text \<open>\<^verbatim>\<open>String.prototype.includes\<close>\<close>

fun starts_with :: "string \<Rightarrow> string \<Rightarrow> bool" where
  "starts_with s [] = True"
| "starts_with [] (c # cs) = False"
| "starts_with (x # xs) (c # cs) = (x = c \<and> starts_with xs cs)"

fun str_includes :: "string \<Rightarrow> string \<Rightarrow> bool" where
  "str_includes [] t = (t = [])"
| "str_includes (x # xs) t = (starts_with (x # xs) t \<or> str_includes xs t)"

definition error_message :: "js_error \<Rightarrow> string" where
  "error_message e = (case e of TypeError m \<Rightarrow> m | Error m \<Rightarrow> m)"

text \<open>The \<^verbatim>\<open>catch\<close> block of the \<^verbatim>\<open>POST /logs\<close> handler: the response status.\<close>

definition logs_catch_status :: "js_error \<Rightarrow> nat" where
  "logs_catch_status e = (if str_includes (error_message e) ''Queue full'' then 429 else 500)"

text \<open>
  The \<^verbatim>\<open>POST /logs\<close> handler, returning the new distributor state and the
  response status. \<open>parsed\<close> is the result of \<^verbatim>\<open>this.parseLogPacket(req.body)\<close>
  (a packet, or the error it throws) and \<open>JSON_stringify\<close> is
  \<^verbatim>\<open>JSON.stringify\<close>; \<open>pid\<close> and \<open>startTime\<close> are passed on to
  \<^verbatim>\<open>distributePacket\<close>.
\<close>

definition post_logs ::
  "Distributor \<Rightarrow> js_error + LogPacket \<Rightarrow> (jsval \<Rightarrow> string) \<Rightarrow> string \<Rightarrow> int \<Rightarrow> Distributor \<times> nat" where
  "post_logs d parsed JSON_stringify pid startTime =
     (case parsed of
        Inl e \<Rightarrow> (d, logs_catch_status e)
      | Inr packet \<Rightarrow>
          if \<not> LogPacket_isValid packet then (d, 400)
          else
            (let msgs = map (\<lambda>msg. JSON_stringify (LogMessage_toJSON msg)) (messages packet) in
             case distributePacket d msgs pid startTime of
               (d', Inr ok) \<Rightarrow> (d', 200)
             | (d', Inl e) \<Rightarrow> (d', logs_catch_status e)))"

text \<open>
  The body of \<^verbatim>\<open>POST /analyzers\<close>, with the field types of the documented
  interface \<^verbatim>\<open>{id, endpoint, weight?}\<close>: strings and a number, each possibly
  absent.
\<close>

record AnalyzerRequest =
  req_id :: "string option"
  req_endpoint :: "string option"
  req_weight :: "real option"

text \<open>\<^verbatim>\<open>!s\<close> for an optional string: absent or empty.\<close>

definition str_falsy :: "string option \<Rightarrow> bool" where
  "str_falsy s = (case s of None \<Rightarrow> True | Some x \<Rightarrow> x = [])"

text \<open>\<^verbatim>\<open>weight || 1.0\<close>\<close>

definition weight_or_default :: "real option \<Rightarrow> real" where
  "weight_or_default w = (case w of None \<Rightarrow> 1 | Some x \<Rightarrow> if x = 0 then 1 else x)"

text \<open>
  The \<^verbatim>\<open>POST /analyzers\<close> handler: the new state and the response status
  (\<^verbatim>\<open>res.json\<close> answers with 200).
\<close>

definition post_analyzers :: "Distributor \<Rightarrow> AnalyzerRequest \<Rightarrow> string \<Rightarrow> Distributor \<times> nat" where
  "post_analyzers d body now =
     (if str_falsy (req_id body) \<or> str_falsy (req_endpoint body) then (d, 400)
      else
        (case (req_id body, req_endpoint body) of
           (Some i, Some ep) \<Rightarrow>
             (let analyzer = Analyzer_new i ep (Some (weight_or_default (req_weight body))) now
              in (addAnalyzer d analyzer, 200))
         | _ \<Rightarrow> (d, 400)))"


section \<open>The selector of the specification\<close>

text \<open>
  The selector as the specification words it, for comparison with
  \<^verbatim>\<open>selectAnalyzer\<close>: the healthy analyzers are iterated in lexicographic order of
  their ids, the cumulative weight \<open>c\<close> is accumulated, and the first analyzer with
  \<open>r < c\<close> is selected, where \<open>r = u * S\<close> is the draw in \<open>[0, S)\<close>; the last
  analyzer is the fallback. An empty set and a zero sum have no result, and a single
  analyzer is returned without drawing.
\<close>

fun spec_walk :: "real \<Rightarrow> real \<Rightarrow> Analyzer list \<Rightarrow> Analyzer option" where
  "spec_walk r c [] = None"
| "spec_walk r c (a # rest) =
     (if r < c + an_weight a then Some a else spec_walk r (c + an_weight a) rest)"

definition spec_select :: "Analyzer list \<Rightarrow> real \<Rightarrow> Analyzer option" where
  "spec_select H u =
     (let hs = sort_key an_id H in
      if hs = [] then None
      else if length hs = 1 then Some (hd hs)
      else
        (let S = sum_list (map an_weight hs) in
         if S = 0 then None
         else (case spec_walk (u * S) 0 hs of Some a \<Rightarrow> Some a | None \<Rightarrow> Some (last hs))))"

text \<open>
  The running sum of the loop of \<^verbatim>\<open>selectAnalyzer\<close>: the value of
  \<^verbatim>\<open>cumulativeWeight\<close> after the weights of \<open>hs\<close> are added to \<open>c\<close> from the
  left, and the value it has after the analyzer at index \<open>i\<close> of the iteration.
\<close>

definition addWeights :: "double_arith \<Rightarrow> jsnum \<Rightarrow> Analyzer list \<Rightarrow> jsnum" where
  "addWeights fl c hs = foldl (\<lambda>sum analyzer. dadd fl sum (Finite (an_weight analyzer))) c hs"

definition cumulative :: "double_arith \<Rightarrow> Analyzer list \<Rightarrow> nat \<Rightarrow> jsnum" where
  "cumulative fl hs i = addWeights fl (Finite 0) (take (Suc i) hs)"


section \<open>Properties of the health state machine\<close>

lemma updateHealth_exclusive:
  "consecutiveSuccesses (updateHealth a s rt now) = 0 \<or>
   consecutiveFailures (updateHealth a s rt now) = 0"
  by (cases s) (simp_all add: updateHealth_def Let_def)

lemma updateHealth_seq_snoc:
  "updateHealth_seq a (calls @ [(s, rt, now)]) = updateHealth (updateHealth_seq a calls) s rt now"
  by (induction a calls rule: updateHealth_seq.induct) simp_all

lemma updateHealth_totals:
  "totalFailures a \<le> totalChecks a \<Longrightarrow>
   totalFailures (updateHealth a s rt now) \<le> totalChecks (updateHealth a s rt now)"
  by (cases s) (simp_all add: updateHealth_def Let_def)

lemma updateHealth_seq_totals:
  "totalFailures a \<le> totalChecks a \<Longrightarrow>
   totalFailures (updateHealth_seq a calls) \<le> totalChecks (updateHealth_seq a calls)"
proof (induction a calls rule: updateHealth_seq.induct)
  case (1 a)
  then show ?case by simp
next
  case (2 a success responseTime now calls)
  from "2.prems" have "totalFailures (updateHealth a success responseTime now)
      \<le> totalChecks (updateHealth a success responseTime now)"
    by (rule updateHealth_totals)
  then show ?case using "2.IH" by simp
qed

lemma getFailureRate_bounds:
  assumes "totalFailures a \<le> totalChecks a"
  shows "\<exists>r. getFailureRate a = Some r \<and> 0 \<le> r \<and> r \<le> 100"
proof (cases "totalChecks a = 0")
  case True
  then show ?thesis by (simp add: getFailureRate_def)
next
  case False
  then have pos: "0 < real (totalChecks a)" by simp
  from assms have fc: "real (totalFailures a) \<le> real (totalChecks a)" by simp
  define q where "q = real (totalFailures a) / real (totalChecks a)"
  from fc pos have upper: "q \<le> 1"
    unfolding q_def by (simp add: divide_le_eq)
  have lower: "0 \<le> q"
    unfolding q_def by simp
  from False have "getFailureRate a = Some (q * 100)"
    by (simp add: getFailureRate_def js_div_def q_def)
  moreover from lower have "0 \<le> q * 100" by simp
  moreover from upper have "q * 100 \<le> 100" by simp
  ultimately show ?thesis by blast
qed

text \<open>
  Claim C6. After any finite sequence of \<^verbatim>\<open>updateHealth\<close> calls on a freshly
  constructed analyzer, \<^verbatim>\<open>consecutiveSuccesses\<close> or \<^verbatim>\<open>consecutiveFailures\<close> is 0;
  a success sets \<^verbatim>\<open>consecutiveFailures\<close> to 0 and a failure sets
  \<^verbatim>\<open>consecutiveSuccesses\<close> to 0, whatever the record held before.
\<close>

theorem C6_counters_exclusive:
  "(consecutiveSuccesses (updateHealth_seq (Analyzer_new i ep w t0) calls) = 0 \<or>
    consecutiveFailures (updateHealth_seq (Analyzer_new i ep w t0) calls) = 0) \<and>
   consecutiveFailures (updateHealth a True rt now) = 0 \<and>
   consecutiveSuccesses (updateHealth a False rt now) = 0"
proof -
  have "consecutiveSuccesses (updateHealth_seq (Analyzer_new i ep w t0) calls) = 0 \<or>
        consecutiveFailures (updateHealth_seq (Analyzer_new i ep w t0) calls) = 0"
  proof (cases calls rule: rev_cases)
    case Nil
    then show ?thesis by (simp add: Analyzer_new_def)
  next
    case (snoc front c)
    obtain s r n where c: "c = (s, r, n)" by (cases c)
    show ?thesis
      unfolding snoc c updateHealth_seq_snoc by (rule updateHealth_exclusive)
  qed
  moreover have "consecutiveFailures (updateHealth a True rt now) = 0"
    by (simp add: updateHealth_def Let_def)
  moreover have "consecutiveSuccesses (updateHealth a False rt now) = 0"
    by (simp add: updateHealth_def Let_def)
  ultimately show ?thesis by blast
qed

text \<open>
  Claim C10. \<^verbatim>\<open>getFailureRate\<close> never divides by zero: on every record it returns a
  finite number, and 0 when \<^verbatim>\<open>totalChecks\<close> is 0. On every record reached from a
  fresh one by \<^verbatim>\<open>updateHealth\<close> calls, \<^verbatim>\<open>totalFailures \<le> totalChecks\<close> holds and the
  rate lies between 0 and 100.
\<close>

theorem C10_getFailureRate_safe:
  "(\<exists>r. getFailureRate a = Some r) \<and>
   (totalChecks a = 0 \<longrightarrow> getFailureRate a = Some 0) \<and>
   totalFailures (updateHealth_seq (Analyzer_new i ep w t0) calls)
     \<le> totalChecks (updateHealth_seq (Analyzer_new i ep w t0) calls) \<and>
   (\<exists>r. getFailureRate (updateHealth_seq (Analyzer_new i ep w t0) calls) = Some r \<and>
        0 \<le> r \<and> r \<le> 100)"
proof -
  have total: "\<exists>r. getFailureRate a = Some r"
    by (simp add: getFailureRate_def js_div_def)
  have zero: "totalChecks a = 0 \<longrightarrow> getFailureRate a = Some 0"
    by (simp add: getFailureRate_def)
  have "totalFailures (Analyzer_new i ep w t0) \<le> totalChecks (Analyzer_new i ep w t0)"
    by (simp add: Analyzer_new_def)
  then have le: "totalFailures (updateHealth_seq (Analyzer_new i ep w t0) calls)
      \<le> totalChecks (updateHealth_seq (Analyzer_new i ep w t0) calls)"
    by (rule updateHealth_seq_totals)
  from le have "\<exists>r. getFailureRate (updateHealth_seq (Analyzer_new i ep w t0) calls) = Some r \<and>
        0 \<le> r \<and> r \<le> 100"
    by (rule getFailureRate_bounds)
  with total zero le show ?thesis by blast
qed

theorem C10_getFailureRate_safe_witness:
  "totalChecks (Analyzer_new ''a1'' ''http://h'' None ''t'') = 0 \<and>
   getFailureRate (Analyzer_new ''a1'' ''http://h'' None ''t'') = Some 0 \<and>
   getFailureRate (updateHealth_seq (Analyzer_new ''a1'' ''http://h'' None ''t'')
      [(False, 7, ''t1''), (True, 5, ''t2'')]) = Some 50"
  using C10_getFailureRate_safe [of "Analyzer_new ''a1'' ''http://h'' None ''t''"
      "''a1''" "''http://h''" None "''t''" "[(False, 7, ''t1''), (True, 5, ''t2'')]"]
  by (simp add: Analyzer_new_def updateHealth_def getFailureRate_def js_div_def Let_def)

text \<open>
  The literal thresholds of \<^verbatim>\<open>updateHealth\<close>: the flag falls only on a failure
  that brings \<^verbatim>\<open>consecutiveFailures\<close> to 3 or more, and rises only on a success
  that brings \<^verbatim>\<open>consecutiveSuccesses\<close> to 3 or more.
\<close>

lemma updateHealth_degrade:
  "healthy a \<Longrightarrow> \<not> healthy (updateHealth a s rt now) \<Longrightarrow>
     \<not> s \<and> 3 \<le> consecutiveFailures (updateHealth a s rt now)"
  by (cases s) (simp_all add: updateHealth_def Let_def split: if_splits)

lemma updateHealth_recover:
  "\<not> healthy a \<Longrightarrow> healthy (updateHealth a s rt now) \<Longrightarrow>
     s \<and> 3 \<le> consecutiveSuccesses (updateHealth a s rt now)"
  by (cases s) (simp_all add: updateHealth_def Let_def split: if_splits)

text \<open>
  Claim C3 says that the healthy flag falls only where \<^verbatim>\<open>consecutiveFailures\<close>
  reaches the configured \<^verbatim>\<open>failureThreshold\<close>, for every configured value. The
  code does not do so: a health checker configured with \<^verbatim>\<open>failureThreshold = 5\<close>
  stores 5, and after two failed probes of a fresh analyzer the flag is still true, but
  the third failed probe sets it to false with \<^verbatim>\<open>consecutiveFailures = 3\<close>, below
  the configured 5.
\<close>

theorem C3_configured_threshold_ignored:
  "failureThreshold (HealthChecker_new None None (Some 5) None) = 5 \<and>
   map_option (\<lambda>a. (healthy a, consecutiveFailures a))
     (Map_get (analyzers
        (checkAnalyzerHealth (HealthChecker_new None None (Some 5) None)
          (checkAnalyzerHealth (HealthChecker_new None None (Some 5) None)
             (addAnalyzer (WeightedDistributor_new None None)
                (Analyzer_new ''a1'' ''http://h1'' None ''t0''))
             ''a1'' NoResponse 5000 ''t1'')
          ''a1'' NoResponse 5000 ''t2'')) ''a1'')
     = Some (True, 2) \<and>
   map_option (\<lambda>a. (healthy a, consecutiveFailures a))
     (Map_get (analyzers
        (checkAnalyzerHealth (HealthChecker_new None None (Some 5) None)
          (checkAnalyzerHealth (HealthChecker_new None None (Some 5) None)
            (checkAnalyzerHealth (HealthChecker_new None None (Some 5) None)
               (addAnalyzer (WeightedDistributor_new None None)
                  (Analyzer_new ''a1'' ''http://h1'' None ''t0''))
               ''a1'' NoResponse 5000 ''t1'')
            ''a1'' NoResponse 5000 ''t2'')
          ''a1'' (Response 503) 7 ''t3'')) ''a1'')
     = Some (False, 3)"
  by (simp add: checkAnalyzerHealth_def performHealthCheck_def HealthChecker_new_def
      updateAnalyzerHealth_def updateHealth_def Map_get_def addAnalyzer_def
      WeightedDistributor_new_def Analyzer_new_def num_or_def Let_def)


section \<open>Registry, selector and wire form\<close>

lemma map_of_Map_set: "map_of (Map_set kvs k v) = (map_of kvs)(k \<mapsto> v)"
  by (induction kvs k v rule: Map_set.induct) (auto simp: fun_eq_iff)

lemma map_of_Map_delete: "map_of (Map_delete kvs k) = (map_of kvs)(k := None)"
  unfolding Map_delete_def by (induction kvs) (auto simp: fun_eq_iff)

lemma Map_delete_twice: "Map_delete (Map_delete kvs k) k = Map_delete kvs k"
  by (simp add: Map_delete_def)

lemma Map_delete_absent: "map_of kvs k = None \<Longrightarrow> Map_delete kvs k = kvs"
  unfolding Map_delete_def
  by (induction kvs) (auto split: if_splits)

lemma keys_Map_set_present:
  "k \<in> fst ` set kvs \<Longrightarrow> map fst (Map_set kvs k v) = map fst kvs"
  by (induction kvs k v rule: Map_set.induct) auto

lemma Map_set_absent:
  "k \<notin> fst ` set kvs \<Longrightarrow> Map_set kvs k v = kvs @ [(k, v)]"
  by (induction kvs k v rule: Map_set.induct) auto

lemma keys_Map_delete: "map fst (Map_delete kvs k) = filter (\<lambda>x. x \<noteq> k) (map fst kvs)"
  unfolding Map_delete_def by (induction kvs) auto

lemma Map_delete_not_key: "k \<notin> fst ` set (Map_delete kvs k)"
  unfolding Map_delete_def by auto

lemma removeAnalyzer_twice: "removeAnalyzer (removeAnalyzer d i) i = removeAnalyzer d i"
  by (simp add: removeAnalyzer_def Map_get_def map_of_Map_delete split: option.splits)

lemma removeAnalyzer_analyzers: "analyzers (removeAnalyzer d i) = Map_delete (analyzers d) i"
  by (simp add: removeAnalyzer_def Map_get_def Map_delete_absent split: option.splits)

lemma addWeights_Cons:
  "addWeights fl c (h # hs) = addWeights fl (dadd fl c (Finite (an_weight h))) hs"
  by (simp add: addWeights_def)

lemma getTotalWeight_addWeights:
  "getTotalWeight fl d = addWeights fl (Finite 0) (getHealthyAnalyzers d)"
  by (simp add: getTotalWeight_def addWeights_def)

lemma selectLoop_Some:
  "selectLoop fl r c hs = Some a \<Longrightarrow>
     \<exists>i<length hs. a = hs ! i \<and> js_le r (addWeights fl c (take (Suc i) hs)) \<and>
        (\<forall>j<i. \<not> js_le r (addWeights fl c (take (Suc j) hs)))"
proof (induction hs arbitrary: c)
  case Nil
  then show ?case by simp
next
  case (Cons h hs)
  define c' where "c' = dadd fl c (Finite (an_weight h))"
  show ?case
  proof (cases "js_le r c'")
    case True
    with Cons.prems have "a = h" by (simp add: Let_def c'_def)
    with True show ?thesis
      by (intro exI[of _ 0]) (simp add: addWeights_def c'_def)
  next
    case False
    with Cons.prems have "selectLoop fl r c' hs = Some a" by (simp add: Let_def c'_def)
    from Cons.IH[OF this] obtain i where i: "i < length hs" "a = hs ! i"
      "js_le r (addWeights fl c' (take (Suc i) hs))"
      "\<forall>j<i. \<not> js_le r (addWeights fl c' (take (Suc j) hs))"
      by blast
    have "\<forall>j<Suc i. \<not> js_le r (addWeights fl c (take (Suc j) (h # hs)))"
    proof (intro allI impI)
      fix j assume "j < Suc i"
      show "\<not> js_le r (addWeights fl c (take (Suc j) (h # hs)))"
      proof (cases j)
        case 0
        with False show ?thesis by (simp add: addWeights_def c'_def)
      next
        case (Suc j')
        with \<open>j < Suc i\<close> i(4) show ?thesis by (simp add: addWeights_Cons c'_def)
      qed
    qed
    with i show ?thesis
      by (intro exI[of _ "Suc i"]) (simp add: addWeights_Cons c'_def)
  qed
qed

lemma selectLoop_None:
  "selectLoop fl r c hs = None \<Longrightarrow>
     \<forall>j<length hs. \<not> js_le r (addWeights fl c (take (Suc j) hs))"
proof (induction hs arbitrary: c)
  case Nil
  then show ?case by simp
next
  case (Cons h hs)
  define c' where "c' = dadd fl c (Finite (an_weight h))"
  from Cons.prems have nle: "\<not> js_le r c'"
    by (auto simp: Let_def c'_def split: if_splits)
  with Cons.prems have "selectLoop fl r c' hs = None" by (simp add: Let_def c'_def)
  from Cons.IH[OF this]
  have ih: "\<forall>j<length hs. \<not> js_le r (addWeights fl c' (take (Suc j) hs))" .
  show ?case
  proof (intro allI impI)
    fix j assume "j < length (h # hs)"
    show "\<not> js_le r (addWeights fl c (take (Suc j) (h # hs)))"
    proof (cases j)
      case 0
      with nle show ?thesis by (simp add: addWeights_def c'_def)
    next
      case (Suc j')
      with \<open>j < length (h # hs)\<close> ih show ?thesis by (simp add: addWeights_Cons c'_def)
    qed
  qed
qed

text \<open>
  Claim C4, as amended. \<^verbatim>\<open>selectAnalyzer\<close> iterates the healthy analyzers in
  the insertion order of the registry map (not sorted by id). With exactly one
  healthy analyzer it returns that analyzer, whatever the draw. With at least two
  and a computed weight sum \<open>S\<close> other than 0 (\<open>S\<close> is the last cumulative weight)
  it returns the analyzer at the least index \<open>i\<close> whose computed cumulative weight
  \<open>c\<close> satisfies \<open>r <= c\<close> (not strictly), where \<open>r\<close> is the computed product of
  the draw and \<open>S\<close>: no earlier cumulative weight satisfies the comparison; when no
  index satisfies it, the last analyzer is returned. Sum, product and cumulative
  weights are the values the double operations compute, whatever these are.
\<close>

theorem C4_selectAnalyzer_walk:
  assumes hs: "hs = getHealthyAnalyzers d"
  shows "hs = filter healthy (map snd (analyzers d)) \<and>
         (length hs = 1 \<longrightarrow> selectAnalyzer fl d u = Some (hs ! 0)) \<and>
         (2 \<le> length hs \<and> getTotalWeight fl d \<noteq> Finite 0 \<longrightarrow>
            getTotalWeight fl d = cumulative fl hs (length hs - 1) \<and>
            (\<exists>i<length hs. selectAnalyzer fl d u = Some (hs ! i) \<and>
               (\<forall>j<i. \<not> js_le (dmul fl (Finite u) (getTotalWeight fl d)) (cumulative fl hs j)) \<and>
               (js_le (dmul fl (Finite u) (getTotalWeight fl d)) (cumulative fl hs i)
                  \<or> i = length hs - 1)))"
proof (intro conjI impI)
  show "hs = filter healthy (map snd (analyzers d))"
    by (simp add: hs getHealthyAnalyzers_def Map_values_def)
next
  assume "length hs = 1"
  then show "selectAnalyzer fl d u = Some (hs ! 0)"
    by (auto simp add: selectAnalyzer_def Let_def hs)
next
  assume a: "2 \<le> length hs \<and> getTotalWeight fl d \<noteq> Finite 0"
  then have len: "2 \<le> length hs" by simp
  then have "take (Suc (length hs - 1)) hs = hs" by simp
  then show "getTotalWeight fl d = cumulative fl hs (length hs - 1)"
    by (simp add: getTotalWeight_addWeights cumulative_def hs[symmetric])
next
  assume a: "2 \<le> length hs \<and> getTotalWeight fl d \<noteq> Finite 0"
  define r where "r = dmul fl (Finite u) (getTotalWeight fl d)"
  have sel: "selectAnalyzer fl d u =
      (case selectLoop fl r (Finite 0) hs of
         Some x \<Rightarrow> Some x | None \<Rightarrow> Some (hs ! (length hs - 1)))"
    using a by (auto simp add: selectAnalyzer_def Let_def hs[symmetric] r_def)
  show "\<exists>i<length hs. selectAnalyzer fl d u = Some (hs ! i) \<and>
               (\<forall>j<i. \<not> js_le (dmul fl (Finite u) (getTotalWeight fl d)) (cumulative fl hs j)) \<and>
               (js_le (dmul fl (Finite u) (getTotalWeight fl d)) (cumulative fl hs i)
                  \<or> i = length hs - 1)"
  proof (cases "selectLoop fl r (Finite 0) hs")
    case None
    from selectLoop_None[OF None] have "\<forall>j<length hs. \<not> js_le r (cumulative fl hs j)"
      by (simp add: cumulative_def)
    moreover from a have "2 \<le> length hs" by simp
    then have "length hs - 1 < length hs" by arith
    ultimately show ?thesis
      using sel None unfolding r_def[symmetric]
      by (intro exI[of _ "length hs - 1"]) simp
  next
    case (Some x)
    from selectLoop_Some[OF Some] obtain i where "i < length hs" "x = hs ! i"
      "js_le r (cumulative fl hs i)" "\<forall>j<i. \<not> js_le r (cumulative fl hs j)"
      by (auto simp: cumulative_def)
    with sel Some show ?thesis
      unfolding r_def[symmetric] by (intro exI[of _ i]) simp
  qed
qed

theorem C4_selectAnalyzer_walk_witness:
  "getHealthyAnalyzers
      (addAnalyzer (addAnalyzer (WeightedDistributor_new None None)
          (Analyzer_new ''b'' ''http://b'' (Some 1) ''t0''))
          (Analyzer_new ''a'' ''http://a'' (Some 3) ''t0''))
     = [Analyzer_new ''b'' ''http://b'' (Some 1) ''t0'', Analyzer_new ''a'' ''http://a'' (Some 3) ''t0''] \<and>
   getTotalWeight exact_arith
      (addAnalyzer (addAnalyzer (WeightedDistributor_new None None)
          (Analyzer_new ''b'' ''http://b'' (Some 1) ''t0''))
          (Analyzer_new ''a'' ''http://a'' (Some 3) ''t0'')) = Finite 4 \<and>
   selectAnalyzer exact_arith
      (addAnalyzer (addAnalyzer (WeightedDistributor_new None None)
          (Analyzer_new ''b'' ''http://b'' (Some 1) ''t0''))
          (Analyzer_new ''a'' ''http://a'' (Some 3) ''t0'')) (1/2)
     = Some (Analyzer_new ''a'' ''http://a'' (Some 3) ''t0'') \<and>
   \<not> js_le (dmul exact_arith (Finite (1/2)) (Finite 4))
      (cumulative exact_arith
         [Analyzer_new ''b'' ''http://b'' (Some 1) ''t0'', Analyzer_new ''a'' ''http://a'' (Some 3) ''t0''] 0) \<and>
   js_le (dmul exact_arith (Finite (1/2)) (Finite 4))
      (cumulative exact_arith
         [Analyzer_new ''b'' ''http://b'' (Some 1) ''t0'', Analyzer_new ''a'' ''http://a'' (Some 3) ''t0''] 1)"
  using C4_selectAnalyzer_walk [of
      "[Analyzer_new ''b'' ''http://b'' (Some 1) ''t0'', Analyzer_new ''a'' ''http://a'' (Some 3) ''t0'']"
      "addAnalyzer (addAnalyzer (WeightedDistributor_new None None)
          (Analyzer_new ''b'' ''http://b'' (Some 1) ''t0''))
          (Analyzer_new ''a'' ''http://a'' (Some 3) ''t0'')" exact_arith "1/2"]
  by (simp add: selectAnalyzer_def getHealthyAnalyzers_def getTotalWeight_def addAnalyzer_def
      WeightedDistributor_new_def Analyzer_new_def Map_values_def cumulative_def addWeights_def
      exact_arith_def Let_def)

text \<open>
  Rounding and overflow decide the result where they occur. With \<open>a\<close> (weight 1)
  before \<open>b\<close> (weight 2), a draw whose product with the sum 3 is rounded to 1
  selects \<open>a\<close>; with two weights whose sum overflows to infinity, the product with
  a positive draw is infinite and \<open>b\<close> is selected.
\<close>

lemma selectAnalyzer_rounded_product:
  assumes "dadd fl (Finite 0) (Finite 1) = Finite 1"
      and "dadd fl (Finite 1) (Finite 2) = Finite 3"
      and "dmul fl (Finite u) (Finite 3) = Finite 1"
  shows "map_option an_id (selectAnalyzer fl
      (addAnalyzer (addAnalyzer (WeightedDistributor_new None None)
          (Analyzer_new ''a'' ''http://a'' (Some 1) ''t0''))
          (Analyzer_new ''b'' ''http://b'' (Some 2) ''t0'')) u) = Some ''a''"
  using assms
  by (simp add: selectAnalyzer_def getHealthyAnalyzers_def getTotalWeight_def addAnalyzer_def
      WeightedDistributor_new_def Analyzer_new_def Map_values_def Let_def)

lemma selectAnalyzer_overflowing_sum:
  assumes "dadd fl (Finite 0) (Finite w) = Finite w"
      and "dadd fl (Finite w) (Finite w) = Infinity"
      and "dmul fl (Finite u) Infinity = Infinity"
  shows "map_option an_id (selectAnalyzer fl
      (addAnalyzer (addAnalyzer (WeightedDistributor_new None None)
          (Analyzer_new ''a'' ''http://a'' (Some w) ''t0''))
          (Analyzer_new ''b'' ''http://b'' (Some w) ''t0'')) u) = Some ''b''"
  using assms
  by (simp add: selectAnalyzer_def getHealthyAnalyzers_def getTotalWeight_def addAnalyzer_def
      WeightedDistributor_new_def Analyzer_new_def Map_values_def Let_def)

text \<open>
  Claim C4 as stated fails. With \<open>b\<close> (weight 1) admitted before \<open>a\<close> (weight 3)
  and the draw \<open>u = 1/8\<close>, \<^verbatim>\<open>selectAnalyzer\<close> returns \<open>b\<close>, the first in
  insertion order, where the iteration by id selects \<open>a\<close>. With \<open>a\<close> and \<open>b\<close> of
  weight 1 each and \<open>u = 1/2\<close>, so that \<open>r\<close> equals the first cumulative weight,
  \<^verbatim>\<open>selectAnalyzer\<close> returns \<open>a\<close> where the strict comparison selects \<open>b\<close>.
  All sums and products of the two examples are exact in double arithmetic.
\<close>

theorem C4_spec_selector_counterexample:
  "map_option an_id (selectAnalyzer exact_arith
      (addAnalyzer (addAnalyzer (WeightedDistributor_new None None)
          (Analyzer_new ''b'' ''http://b'' (Some 1) ''t0''))
          (Analyzer_new ''a'' ''http://a'' (Some 3) ''t0'')) (1/8)) = Some ''b'' \<and>
   map_option an_id (spec_select (getHealthyAnalyzers
      (addAnalyzer (addAnalyzer (WeightedDistributor_new None None)
          (Analyzer_new ''b'' ''http://b'' (Some 1) ''t0''))
          (Analyzer_new ''a'' ''http://a'' (Some 3) ''t0''))) (1/8)) = Some ''a'' \<and>
   map_option an_id (selectAnalyzer exact_arith
      (addAnalyzer (addAnalyzer (WeightedDistributor_new None None)
          (Analyzer_new ''a'' ''http://a'' (Some 1) ''t0''))
          (Analyzer_new ''b'' ''http://b'' (Some 1) ''t0'')) (1/2)) = Some ''a'' \<and>
   map_option an_id (spec_select (getHealthyAnalyzers
      (addAnalyzer (addAnalyzer (WeightedDistributor_new None None)
          (Analyzer_new ''a'' ''http://a'' (Some 1) ''t0''))
          (Analyzer_new ''b'' ''http://b'' (Some 1) ''t0''))) (1/2)) = Some ''b''"
  by (simp add: selectAnalyzer_def spec_select_def getHealthyAnalyzers_def getTotalWeight_def
      addAnalyzer_def exact_arith_def WeightedDistributor_new_def Analyzer_new_def Map_values_def Let_def)

text \<open>
  Parsing the serialized form back keeps every field of a valid message, except that
  an \<^verbatim>\<open>undefined\<close> metadata field comes back as the constructor's default
  \<^verbatim>\<open>{}\<close>.
\<close>

lemma LogMessage_roundtrip_default_metadata:
  assumes "LogMessage_isValid m"
  shows "LogMessage_fromJSON fresh now (LogMessage_toJSON m)
           = Inr (m\<lparr> metadata := (if metadata m = JUndefined then JObj [] else metadata m) \<rparr>)"
  using assms
  by (simp add: LogMessage_fromJSON_def LogMessage_toJSON_def LogMessage_new_def
      LogMessage_isValid_def js_or_def js_prop_def Let_def)

text \<open>
  Claim C9. For every valid log message \<open>m\<close>, \<^verbatim>\<open>LogMessage.fromJSON(m.toJSON())\<close>
  is a message equal to \<open>m\<close> on the fields id, timestamp, level, source, message
  and metadata (these are all its fields), whatever fresh id and clock reading the
  constructor draws. The metadata of a message is a defined value: the constructor
  replaces an \<^verbatim>\<open>undefined\<close> argument by \<^verbatim>\<open>{}\<close>, so no message built by the
  constructor or by \<^verbatim>\<open>fromJSON\<close> has \<^verbatim>\<open>undefined\<close> metadata (lemmas
  \<open>LogMessage_new_metadata\<close> and \<open>LogMessage_fromJSON_metadata\<close> below).
\<close>

theorem C9_roundtrip:
  assumes "LogMessage_isValid m" and "metadata m \<noteq> JUndefined"
  shows "LogMessage_fromJSON fresh now (LogMessage_toJSON m) = Inr m"
  using assms
  by (simp add: LogMessage_fromJSON_def LogMessage_toJSON_def LogMessage_new_def
      LogMessage_isValid_def js_or_def js_prop_def Let_def)

lemma LogMessage_new_metadata: "metadata (LogMessage_new fresh now lv src msg md) \<noteq> JUndefined"
  by (simp add: LogMessage_new_def)

lemma LogMessage_fromJSON_metadata:
  "LogMessage_fromJSON fresh now json = Inr m \<Longrightarrow> metadata m \<noteq> JUndefined"
  by (auto simp add: LogMessage_fromJSON_def LogMessage_new_def Let_def split: sum.splits if_splits)

theorem C9_roundtrip_witness:
  "LogMessage_isValid (LogMessage_new ''u-1'' ''2024-01-01T00:00:00.000Z'' (JStr ''WARN'')
      (JStr ''svc'') (JStr ''disk full'') (JObj [(''host'', JStr ''h1'')])) \<and>
   metadata (LogMessage_new ''u-1'' ''2024-01-01T00:00:00.000Z'' (JStr ''WARN'')
      (JStr ''svc'') (JStr ''disk full'') (JObj [(''host'', JStr ''h1'')])) \<noteq> JUndefined \<and>
   LogMessage_fromJSON ''u-2'' ''2024-02-02T00:00:00.000Z''
     (LogMessage_toJSON (LogMessage_new ''u-1'' ''2024-01-01T00:00:00.000Z'' (JStr ''WARN'')
        (JStr ''svc'') (JStr ''disk full'') (JObj [(''host'', JStr ''h1'')])))
   = Inr (LogMessage_new ''u-1'' ''2024-01-01T00:00:00.000Z'' (JStr ''WARN'')
        (JStr ''svc'') (JStr ''disk full'') (JObj [(''host'', JStr ''h1'')]))"
proof -
  have v: "LogMessage_isValid (LogMessage_new ''u-1'' ''2024-01-01T00:00:00.000Z'' (JStr ''WARN'')
      (JStr ''svc'') (JStr ''disk full'') (JObj [(''host'', JStr ''h1'')]))"
    by (simp add: LogMessage_isValid_def LogMessage_new_def LogLevel_values_def)
  have md: "metadata (LogMessage_new ''u-1'' ''2024-01-01T00:00:00.000Z'' (JStr ''WARN'')
      (JStr ''svc'') (JStr ''disk full'') (JObj [(''host'', JStr ''h1'')])) \<noteq> JUndefined"
    by (simp add: LogMessage_new_def)
  from v md C9_roundtrip [OF v md, of "''u-2''" "''2024-02-02T00:00:00.000Z''"]
  show ?thesis by simp
qed

lemma Map_get_Map_set: "Map_get (Map_set kvs k v) k = Some v"
  by (simp add: Map_get_def map_of_Map_set)

text \<open>
  Claim C8, as amended. Evicting an id twice leaves the same state as evicting it
  once. Admitting an analyzer and evicting its id before admitting it yield the same
  lookup function from ids to records and agree on every other component of the
  state; the record stored for a freshly constructed analyzer carries the new
  endpoint and weight, zero counters and \<^verbatim>\<open>healthy = true\<close>. The iteration order
  differs when the id was present: admitting keeps the entry where it stands, while
  evicting and admitting moves it to the end.
\<close>

theorem C8_evict_admit:
  "removeAnalyzer (removeAnalyzer d i) i = removeAnalyzer d i \<and>
   Map_get (analyzers (addAnalyzer d a))
     = Map_get (analyzers (addAnalyzer (removeAnalyzer d (an_id a)) a)) \<and>
   (addAnalyzer d a)\<lparr> analyzers := [] \<rparr>
     = (addAnalyzer (removeAnalyzer d (an_id a)) a)\<lparr> analyzers := [] \<rparr> \<and>
   Map_get (analyzers (addAnalyzer d (Analyzer_new i ep w now))) i
     = Some \<lparr> an_id = i, endpoint = ep, an_weight = (case w of None \<Rightarrow> 1 | Some x \<Rightarrow> x),
              healthy = True, lastSeen = now, consecutiveFailures = 0,
              consecutiveSuccesses = 0, totalChecks = 0, totalFailures = 0,
              lastResponseTime = 0 \<rparr> \<and>
   (an_id a \<in> set (map fst (analyzers d)) \<longrightarrow>
      map fst (analyzers (addAnalyzer d a)) = map fst (analyzers d) \<and>
      map fst (analyzers (addAnalyzer (removeAnalyzer d (an_id a)) a))
        = filter (\<lambda>k. k \<noteq> an_id a) (map fst (analyzers d)) @ [an_id a])"
proof (intro conjI impI)
  show "removeAnalyzer (removeAnalyzer d i) i = removeAnalyzer d i"
    by (rule removeAnalyzer_twice)
  show "Map_get (analyzers (addAnalyzer d a))
     = Map_get (analyzers (addAnalyzer (removeAnalyzer d (an_id a)) a))"
    by (simp add: fun_eq_iff addAnalyzer_def removeAnalyzer_analyzers Map_get_def
        map_of_Map_set map_of_Map_delete)
  show "(addAnalyzer d a)\<lparr> analyzers := [] \<rparr>
     = (addAnalyzer (removeAnalyzer d (an_id a)) a)\<lparr> analyzers := [] \<rparr>"
    by (simp add: addAnalyzer_def removeAnalyzer_def split: option.splits)
  show "Map_get (analyzers (addAnalyzer d (Analyzer_new i ep w now))) i
     = Some \<lparr> an_id = i, endpoint = ep, an_weight = (case w of None \<Rightarrow> 1 | Some x \<Rightarrow> x),
              healthy = True, lastSeen = now, consecutiveFailures = 0,
              consecutiveSuccesses = 0, totalChecks = 0, totalFailures = 0,
              lastResponseTime = 0 \<rparr>"
    by (simp add: addAnalyzer_def Map_get_Map_set Analyzer_new_def)
next
  assume present: "an_id a \<in> set (map fst (analyzers d))"
  then show "map fst (analyzers (addAnalyzer d a)) = map fst (analyzers d)"
    by (simp add: addAnalyzer_def keys_Map_set_present)
  have "an_id a \<notin> fst ` set (Map_delete (analyzers d) (an_id a))"
    by (rule Map_delete_not_key)
  then show "map fst (analyzers (addAnalyzer (removeAnalyzer d (an_id a)) a))
        = filter (\<lambda>k. k \<noteq> an_id a) (map fst (analyzers d)) @ [an_id a]"
    by (simp add: addAnalyzer_def removeAnalyzer_analyzers Map_set_absent keys_Map_delete)
qed

theorem C8_evict_admit_witness:
  "an_id (Analyzer_new ''a'' ''http://new'' (Some 3) ''t1'')
     \<in> set (map fst (analyzers
         (addAnalyzer (addAnalyzer (WeightedDistributor_new None None)
            (Analyzer_new ''a'' ''http://a'' (Some 1) ''t0''))
            (Analyzer_new ''b'' ''http://b'' (Some 1) ''t0'')))) \<and>
   map fst (analyzers (addAnalyzer
        (addAnalyzer (addAnalyzer (WeightedDistributor_new None None)
            (Analyzer_new ''a'' ''http://a'' (Some 1) ''t0''))
            (Analyzer_new ''b'' ''http://b'' (Some 1) ''t0''))
        (Analyzer_new ''a'' ''http://new'' (Some 3) ''t1''))) = [''a'', ''b''] \<and>
   map fst (analyzers (addAnalyzer
        (removeAnalyzer
          (addAnalyzer (addAnalyzer (WeightedDistributor_new None None)
            (Analyzer_new ''a'' ''http://a'' (Some 1) ''t0''))
            (Analyzer_new ''b'' ''http://b'' (Some 1) ''t0'')) ''a'')
        (Analyzer_new ''a'' ''http://new'' (Some 3) ''t1''))) = [''b'', ''a'']"
proof -
  define d0 where "d0 = addAnalyzer (addAnalyzer (WeightedDistributor_new None None)
            (Analyzer_new ''a'' ''http://a'' (Some 1) ''t0''))
            (Analyzer_new ''b'' ''http://b'' (Some 1) ''t0'')"
  define a' where "a' = Analyzer_new ''a'' ''http://new'' (Some 3) ''t1''"
  have keys: "map fst (analyzers d0) = [''a'', ''b'']"
    by (simp add: d0_def addAnalyzer_def WeightedDistributor_new_def Analyzer_new_def)
  have ida: "an_id a' = ''a''"
    by (simp add: a'_def Analyzer_new_def)
  have present: "an_id a' \<in> set (map fst (analyzers d0))"
    by (simp add: keys ida)
  from C8_evict_admit [of d0 "''a''" a' "''http://new''" "Some 3" "''t1''"] present
  have "map fst (analyzers (addAnalyzer d0 a')) = map fst (analyzers d0) \<and>
      map fst (analyzers (addAnalyzer (removeAnalyzer d0 (an_id a')) a'))
        = filter (\<lambda>k. k \<noteq> an_id a') (map fst (analyzers d0)) @ [an_id a']"
    by blast
  then have "map fst (analyzers (addAnalyzer d0 a')) = [''a'', ''b''] \<and>
      map fst (analyzers (addAnalyzer (removeAnalyzer d0 ''a'') a')) = [''b'', ''a'']"
    by (simp add: keys ida)
  with present show ?thesis
    unfolding d0_def a'_def by (simp add: ida[unfolded a'_def])
qed

text \<open>
  Claim C8 as stated fails: the two registry states differ. With \<open>a\<close> admitted
  before \<open>b\<close>, admitting \<open>a\<close> again keeps the order \<open>a, b\<close>, and evicting \<open>a\<close>
  before admitting it gives \<open>b, a\<close>. The difference is observable: with the draw
  \<open>u = 1/8\<close> the selector returns \<open>a\<close> in the first state and \<open>b\<close> in the
  second.
\<close>

theorem C8_readmit_order_counterexample:
  "map fst (analyzers (addAnalyzer
      (addAnalyzer (addAnalyzer (WeightedDistributor_new None None)
          (Analyzer_new ''a'' ''http://a'' (Some 1) ''t0''))
          (Analyzer_new ''b'' ''http://b'' (Some 1) ''t0''))
      (Analyzer_new ''a'' ''http://new'' (Some 3) ''t1''))) = [''a'', ''b''] \<and>
   map fst (analyzers (addAnalyzer
      (removeAnalyzer
        (addAnalyzer (addAnalyzer (WeightedDistributor_new None None)
          (Analyzer_new ''a'' ''http://a'' (Some 1) ''t0''))
          (Analyzer_new ''b'' ''http://b'' (Some 1) ''t0'')) ''a'')
      (Analyzer_new ''a'' ''http://new'' (Some 3) ''t1''))) = [''b'', ''a''] \<and>
   addAnalyzer
      (addAnalyzer (addAnalyzer (WeightedDistributor_new None None)
          (Analyzer_new ''a'' ''http://a'' (Some 1) ''t0''))
          (Analyzer_new ''b'' ''http://b'' (Some 1) ''t0''))
      (Analyzer_new ''a'' ''http://new'' (Some 3) ''t1'')
    \<noteq> addAnalyzer
      (removeAnalyzer
        (addAnalyzer (addAnalyzer (WeightedDistributor_new None None)
          (Analyzer_new ''a'' ''http://a'' (Some 1) ''t0''))
          (Analyzer_new ''b'' ''http://b'' (Some 1) ''t0'')) ''a'')
      (Analyzer_new ''a'' ''http://new'' (Some 3) ''t1'') \<and>
   map_option an_id (selectAnalyzer exact_arith (addAnalyzer
      (addAnalyzer (addAnalyzer (WeightedDistributor_new None None)
          (Analyzer_new ''a'' ''http://a'' (Some 1) ''t0''))
          (Analyzer_new ''b'' ''http://b'' (Some 1) ''t0''))
      (Analyzer_new ''a'' ''http://new'' (Some 3) ''t1'')) (1/8)) = Some ''a'' \<and>
   map_option an_id (selectAnalyzer exact_arith (addAnalyzer
      (removeAnalyzer
        (addAnalyzer (addAnalyzer (WeightedDistributor_new None None)
          (Analyzer_new ''a'' ''http://a'' (Some 1) ''t0''))
          (Analyzer_new ''b'' ''http://b'' (Some 1) ''t0'')) ''a'')
      (Analyzer_new ''a'' ''http://new'' (Some 3) ''t1'')) (1/8)) = Some ''b''"
  by (simp add: addAnalyzer_def removeAnalyzer_def Map_get_def Map_delete_def
      WeightedDistributor_new_def Analyzer_new_def selectAnalyzer_def getHealthyAnalyzers_def
      getTotalWeight_def exact_arith_def Map_values_def Let_def)


text \<open>
  Claim C7, as amended. \<^verbatim>\<open>POST /analyzers\<close> answers 400 exactly when the id or
  the endpoint is absent or empty, and then leaves the state unchanged; the weight is
  never a reason to fail. With id and endpoint present the answer is 200 and the
  stored record carries the supplied weight, or 1 when the weight is absent or zero:
  the stored weight is never zero, and a negative weight is stored as supplied.
\<close>

theorem C7_admit_checks:
  "(snd (post_analyzers d body now) = 400
      \<longleftrightarrow> str_falsy (req_id body) \<or> str_falsy (req_endpoint body)) \<and>
   (snd (post_analyzers d body now) = 400 \<longrightarrow> fst (post_analyzers d body now) = d) \<and>
   (req_id body = Some i \<and> i \<noteq> [] \<and> req_endpoint body = Some ep \<and> ep \<noteq> [] \<longrightarrow>
      snd (post_analyzers d body now) = 200 \<and>
      Map_get (analyzers (fst (post_analyzers d body now))) i
        = Some (Analyzer_new i ep (Some (weight_or_default (req_weight body))) now) \<and>
      weight_or_default (req_weight body)
        = (case req_weight body of None \<Rightarrow> 1 | Some w \<Rightarrow> if w = 0 then 1 else w) \<and>
      weight_or_default (req_weight body) \<noteq> 0 \<and>
      (\<forall>w. req_weight body = Some w \<and> w < 0 \<longrightarrow> weight_or_default (req_weight body) = w))"
proof (intro conjI impI)
  show "snd (post_analyzers d body now) = 400
      \<longleftrightarrow> str_falsy (req_id body) \<or> str_falsy (req_endpoint body)"
    by (auto simp: post_analyzers_def str_falsy_def Let_def split: option.splits)
next
  assume "snd (post_analyzers d body now) = 400"
  then show "fst (post_analyzers d body now) = d"
    by (auto simp: post_analyzers_def str_falsy_def Let_def split: option.splits if_splits)
next
  assume a: "req_id body = Some i \<and> i \<noteq> [] \<and> req_endpoint body = Some ep \<and> ep \<noteq> []"
  then have pa: "post_analyzers d body now
      = (addAnalyzer d (Analyzer_new i ep (Some (weight_or_default (req_weight body))) now), 200)"
    by (simp add: post_analyzers_def str_falsy_def Let_def)
  show "snd (post_analyzers d body now) = 200"
    by (simp add: pa)
  show "Map_get (analyzers (fst (post_analyzers d body now))) i
        = Some (Analyzer_new i ep (Some (weight_or_default (req_weight body))) now)"
    by (simp add: pa addAnalyzer_def Map_get_Map_set Analyzer_new_def)
  show "weight_or_default (req_weight body)
        = (case req_weight body of None \<Rightarrow> 1 | Some w \<Rightarrow> if w = 0 then 1 else w)"
    by (simp add: weight_or_default_def)
  show "weight_or_default (req_weight body) \<noteq> 0"
    by (simp add: weight_or_default_def split: option.splits)
  show "\<forall>w. req_weight body = Some w \<and> w < 0 \<longrightarrow> weight_or_default (req_weight body) = w"
    by (simp add: weight_or_default_def)
qed

theorem C7_admit_checks_witness:
  "snd (post_analyzers (WeightedDistributor_new None None)
      \<lparr> req_id = Some ''a1'', req_endpoint = Some ''http://h1'', req_weight = Some (- 5) \<rparr> ''t0'') = 200 \<and>
   Map_get (analyzers (fst (post_analyzers (WeightedDistributor_new None None)
      \<lparr> req_id = Some ''a1'', req_endpoint = Some ''http://h1'', req_weight = Some (- 5) \<rparr> ''t0''))) ''a1''
     = Some (Analyzer_new ''a1'' ''http://h1'' (Some (- 5)) ''t0'') \<and>
   snd (post_analyzers (WeightedDistributor_new None None)
      \<lparr> req_id = None, req_endpoint = Some ''http://h1'', req_weight = Some 2 \<rparr> ''t0'') = 400"
  using C7_admit_checks [of "WeightedDistributor_new None None"
      "\<lparr> req_id = Some ''a1'', req_endpoint = Some ''http://h1'', req_weight = Some (- 5) \<rparr>"
      "''t0''" "''a1''" "''http://h1''"]
    C7_admit_checks [of "WeightedDistributor_new None None"
      "\<lparr> req_id = None, req_endpoint = Some ''http://h1'', req_weight = Some 2 \<rparr>"
      "''t0''" "''a1''" "''http://h1''"]
  by (simp add: weight_or_default_def str_falsy_def)

text \<open>
  Claim C7 as stated fails: a request with weight \<open>-5\<close> is answered with 200 and
  the record is stored with weight \<open>-5\<close>; a request with weight 0 is answered with
  200 as well.
\<close>

theorem C7_negative_weight_counterexample:
  "snd (post_analyzers (WeightedDistributor_new None None)
      \<lparr> req_id = Some ''a1'', req_endpoint = Some ''http://h1'', req_weight = Some (- 5) \<rparr> ''t0'') = 200 \<and>
   map_option an_weight (Map_get (analyzers (fst (post_analyzers (WeightedDistributor_new None None)
      \<lparr> req_id = Some ''a1'', req_endpoint = Some ''http://h1'', req_weight = Some (- 5) \<rparr> ''t0''))) ''a1'')
     = Some (- 5) \<and>
   snd (post_analyzers (WeightedDistributor_new None None)
      \<lparr> req_id = Some ''a2'', req_endpoint = Some ''http://h2'', req_weight = Some 0 \<rparr> ''t0'') = 200"
  by (simp add: post_analyzers_def str_falsy_def weight_or_default_def addAnalyzer_def
      Analyzer_new_def WeightedDistributor_new_def Map_get_def Let_def)


section \<open>Dispatch outcomes\<close>

lemma updateAnalyzerHealth_get:
  "Map_get (analyzers d) i = Some a \<Longrightarrow>
     Map_get (analyzers (updateAnalyzerHealth d i h rt now)) i = Some (updateHealth a h rt now)"
  by (simp add: updateAnalyzerHealth_def Map_get_Map_set)

lemma sendAttempt_4xx:
  assumes "400 \<le> status" and "status < 500" and "js_get logData ''id'' = Inr i"
  shows "sendAttempt (Inr logData) (Response status) = Inl (Error ''Analyzer returned status'')"
  using assms by (simp add: sendAttempt_def distributor_httpClient_post_def)

text \<open>
  A failed send is recorded by the \<^verbatim>\<open>catch\<close> block of \<^verbatim>\<open>sendToAnalyzer\<close> and
  again by the \<^verbatim>\<open>catch\<close> block of \<^verbatim>\<open>distribute\<close>; a successful send is
  recorded once.
\<close>

lemma distribute_failure_recorded_twice:
  assumes sel: "selectAnalyzer fl d u = Some a"
      and stored: "Map_get (analyzers d) (an_id a) = Some a"
      and failed: "sendAttempt parsed outcome = Inl e"
  shows "Map_get (analyzers (fst (distribute fl d u parsed outcome rt now))) (an_id a)
           = Some (updateHealth (updateHealth a False rt now) False 0 now)"
    and "totalChecks (updateHealth (updateHealth a False rt now) False 0 now) = totalChecks a + 2"
    and "consecutiveFailures (updateHealth (updateHealth a False rt now) False 0 now)
           = consecutiveFailures a + 2"
proof -
  have first: "Map_get (analyzers (updateAnalyzerHealth d (an_id a) False rt now)) (an_id a)
      = Some (updateHealth a False rt now)"
    using stored by (rule updateAnalyzerHealth_get)
  show "Map_get (analyzers (fst (distribute fl d u parsed outcome rt now))) (an_id a)
           = Some (updateHealth (updateHealth a False rt now) False 0 now)"
    using first by (simp add: distribute_def sel sendToAnalyzer_def failed updateAnalyzerHealth_get)
  show "totalChecks (updateHealth (updateHealth a False rt now) False 0 now) = totalChecks a + 2"
    by (simp add: updateHealth_def Let_def)
  show "consecutiveFailures (updateHealth (updateHealth a False rt now) False 0 now)
           = consecutiveFailures a + 2"
    by (simp add: updateHealth_def Let_def)
qed

lemma distribute_success_recorded_once:
  assumes sel: "selectAnalyzer fl d u = Some a"
      and stored: "Map_get (analyzers d) (an_id a) = Some a"
      and sent: "sendAttempt parsed outcome = Inr ()"
  shows "Map_get (analyzers (fst (distribute fl d u parsed outcome rt now))) (an_id a)
           = Some (updateHealth a True rt now)"
    and "totalChecks (updateHealth a True rt now) = totalChecks a + 1"
proof -
  show "Map_get (analyzers (fst (distribute fl d u parsed outcome rt now))) (an_id a)
           = Some (updateHealth a True rt now)"
    using stored by (simp add: distribute_def sel sendToAnalyzer_def sent updateAnalyzerHealth_get)
  show "totalChecks (updateHealth a True rt now) = totalChecks a + 1"
    by (simp add: updateHealth_def Let_def)
qed

lemmas dispatch_eval = distribute_def sendToAnalyzer_def sendAttempt_def
  distributor_httpClient_post_def updateAnalyzerHealth_def updateHealth_def selectAnalyzer_def
  getHealthyAnalyzers_def getTotalWeight_def Map_values_def Map_get_def addAnalyzer_def
  WeightedDistributor_new_def Analyzer_new_def num_or_def Let_def

text \<open>
  Claim C1 says that a 4xx response does not increment \<^verbatim>\<open>consecutiveFailures\<close>
  and leaves the analyzer healthy. The code does not do so: the client resolves with
  the 404 response, the status check of \<^verbatim>\<open>sendToAnalyzer\<close> throws inside the
  \<^verbatim>\<open>try\<close> block, and the failure is recorded. One message answered with 404
  leaves a fresh analyzer with \<^verbatim>\<open>consecutiveFailures = 2\<close>; a second one makes it
  unhealthy.
\<close>

theorem C1_4xx_counts_as_failure:
  "map_option (\<lambda>a. (consecutiveFailures a, totalFailures a, healthy a))
     (Map_get (analyzers (fst
        (distribute fl
           (addAnalyzer (WeightedDistributor_new None None)
              (Analyzer_new ''a1'' ''http://h1'' None ''t0''))
           (1/2) (Inr (JObj [(''id'', JStr ''m1''), (''message'', JStr ''hello'')]))
           (Response 404) 12 ''t1''))) ''a1'')
     = Some (2, 2, True) \<and>
   map_option (\<lambda>a. (consecutiveFailures a, totalFailures a, healthy a))
     (Map_get (analyzers (fst
        (distribute fl
           (fst (distribute fl
              (addAnalyzer (WeightedDistributor_new None None)
                 (Analyzer_new ''a1'' ''http://h1'' None ''t0''))
              (1/2) (Inr (JObj [(''id'', JStr ''m1''), (''message'', JStr ''hello'')]))
              (Response 404) 12 ''t1''))
           (1/2) (Inr (JObj [(''id'', JStr ''m2''), (''message'', JStr ''hello'')]))
           (Response 404) 15 ''t2''))) ''a1'')
     = Some (4, 4, False)"
  by (simp add: dispatch_eval)

text \<open>
  Claim C5 says that one dispatch attempt records one outcome. The code does so on
  success (\<^verbatim>\<open>totalChecks\<close> goes from 0 to 1) but not on failure: one message
  answered with 500, or not answered at all, takes \<^verbatim>\<open>totalChecks\<close> and
  \<^verbatim>\<open>consecutiveFailures\<close> of a fresh analyzer from 0 to 2.
\<close>

theorem C5_failure_recorded_twice:
  "map_option (\<lambda>a. (totalChecks a, consecutiveFailures a))
     (Map_get (analyzers
        (addAnalyzer (WeightedDistributor_new None None)
           (Analyzer_new ''a1'' ''http://h1'' None ''t0''))) ''a1'')
     = Some (0, 0) \<and>
   map_option (\<lambda>a. (totalChecks a, consecutiveFailures a))
     (Map_get (analyzers (fst
        (distribute fl
           (addAnalyzer (WeightedDistributor_new None None)
              (Analyzer_new ''a1'' ''http://h1'' None ''t0''))
           (1/2) (Inr (JObj [(''id'', JStr ''m1''), (''message'', JStr ''hello'')]))
           (Response 500) 12 ''t1''))) ''a1'')
     = Some (2, 2) \<and>
   map_option (\<lambda>a. (totalChecks a, consecutiveFailures a))
     (Map_get (analyzers (fst
        (distribute fl
           (addAnalyzer (WeightedDistributor_new None None)
              (Analyzer_new ''a1'' ''http://h1'' None ''t0''))
           (1/2) (Inr (JObj [(''id'', JStr ''m1''), (''message'', JStr ''hello'')]))
           NoResponse 5000 ''t1''))) ''a1'')
     = Some (2, 2) \<and>
   map_option (\<lambda>a. (totalChecks a, consecutiveFailures a))
     (Map_get (analyzers (fst
        (distribute fl
           (addAnalyzer (WeightedDistributor_new None None)
              (Analyzer_new ''a1'' ''http://h1'' None ''t0''))
           (1/2) (Inr (JObj [(''id'', JStr ''m1''), (''message'', JStr ''hello'')]))
           (Response 200) 12 ''t1''))) ''a1'')
     = Some (1, 0)"
  by (simp add: dispatch_eval)


section \<open>Backpressure\<close>

text \<open>
  Claim C2. When the queue holds \<^verbatim>\<open>maxQueueSize\<close> packets (or more),
  \<^verbatim>\<open>distributePacket\<close> rejects every packet: it throws the queue-full error,
  \<^verbatim>\<open>packetsDropped\<close> grows by exactly one and the queue is left as it was (the
  only other change is the increment of \<^verbatim>\<open>packetsReceived\<close>). No request to
  \<^verbatim>\<open>POST /logs\<close> changes the queue then, and the submission of a packet that
  passes validation, which is what reaches \<^verbatim>\<open>distributePacket\<close>, is answered
  with 429.
\<close>

theorem C2_backpressure:
  assumes full: "maxQueueSize d \<le> int (length (packetQueue d))"
  shows "distributePacket d logPacket pid startTime
           = (d\<lparr> packetsReceived := packetsReceived d + 1, packetsDropped := packetsDropped d + 1 \<rparr>,
              Inl (Error ''Queue full - applying backpressure'')) \<and>
         packetQueue (fst (post_logs d parsed JSON_stringify pid startTime)) = packetQueue d \<and>
         (LogPacket_isValid packet \<longrightarrow>
            snd (post_logs d (Inr packet) JSON_stringify pid startTime) = 429 \<and>
            fst (post_logs d (Inr packet) JSON_stringify pid startTime)
              = d\<lparr> packetsReceived := packetsReceived d + 1,
                    packetsDropped := packetsDropped d + 1 \<rparr> \<and>
            packetsDropped (fst (post_logs d (Inr packet) JSON_stringify pid startTime))
              = packetsDropped d + 1)"
proof -
  have dp: "distributePacket d msgs pid startTime
           = (d\<lparr> packetsReceived := packetsReceived d + 1, packetsDropped := packetsDropped d + 1 \<rparr>,
              Inl (Error ''Queue full - applying backpressure''))" for msgs
    using full by (simp add: distributePacket_def Let_def)
  have st: "logs_catch_status (Error ''Queue full - applying backpressure'') = 429"
    by (simp add: logs_catch_status_def error_message_def)
  have pl: "post_logs d (Inr p) JSON_stringify pid startTime
      = (d\<lparr> packetsReceived := packetsReceived d + 1, packetsDropped := packetsDropped d + 1 \<rparr>, 429)"
    if "LogPacket_isValid p" for p
    using that by (simp add: post_logs_def Let_def dp st)
  have queue: "packetQueue (fst (post_logs d parsed JSON_stringify pid startTime)) = packetQueue d"
  proof (cases parsed)
    case (Inl e)
    then show ?thesis by (simp add: post_logs_def)
  next
    case (Inr p)
    show ?thesis
    proof (cases "LogPacket_isValid p")
      case True
      then show ?thesis by (simp add: Inr pl)
    next
      case False
      then show ?thesis by (simp add: Inr post_logs_def)
    qed
  qed
  show ?thesis
    by (simp add: dp queue pl)
qed

theorem C2_backpressure_witness:
  "maxQueueSize
     (fst (post_logs (WeightedDistributor_new (Some 1) None)
        (Inr \<lparr> pkt_id = JStr ''p'', agentId = JStr ''agent'', pkt_timestamp = JStr ''t'',
               messages = [LogMessage_new ''u'' ''t'' (JStr ''INFO'') (JStr ''s'') (JStr ''hi'') JUndefined] \<rparr>)
        (\<lambda>v. ''json'') ''p1'' 1))
     \<le> int (length (packetQueue
     (fst (post_logs (WeightedDistributor_new (Some 1) None)
        (Inr \<lparr> pkt_id = JStr ''p'', agentId = JStr ''agent'', pkt_timestamp = JStr ''t'',
               messages = [LogMessage_new ''u'' ''t'' (JStr ''INFO'') (JStr ''s'') (JStr ''hi'') JUndefined] \<rparr>)
        (\<lambda>v. ''json'') ''p1'' 1)))) \<and>
   LogPacket_isValid
     \<lparr> pkt_id = JStr ''p'', agentId = JStr ''agent'', pkt_timestamp = JStr ''t'',
       messages = [LogMessage_new ''u'' ''t'' (JStr ''INFO'') (JStr ''s'') (JStr ''hi'') JUndefined] \<rparr> \<and>
   snd (post_logs
     (fst (post_logs (WeightedDistributor_new (Some 1) None)
        (Inr \<lparr> pkt_id = JStr ''p'', agentId = JStr ''agent'', pkt_timestamp = JStr ''t'',
               messages = [LogMessage_new ''u'' ''t'' (JStr ''INFO'') (JStr ''s'') (JStr ''hi'') JUndefined] \<rparr>)
        (\<lambda>v. ''json'') ''p1'' 1))
     (Inr \<lparr> pkt_id = JStr ''p'', agentId = JStr ''agent'', pkt_timestamp = JStr ''t'',
            messages = [LogMessage_new ''u'' ''t'' (JStr ''INFO'') (JStr ''s'') (JStr ''hi'') JUndefined] \<rparr>)
     (\<lambda>v. ''json'') ''p2'' 2) = 429"
proof -
  define pkt where "pkt = \<lparr> pkt_id = JStr ''p'', agentId = JStr ''agent'', pkt_timestamp = JStr ''t'',
       messages = [LogMessage_new ''u'' ''t'' (JStr ''INFO'') (JStr ''s'') (JStr ''hi'') JUndefined] \<rparr>"
  define d1 where "d1 = fst (post_logs (WeightedDistributor_new (Some 1) None)
        (Inr pkt) (\<lambda>v. ''json'') ''p1'' 1)"
  have valid: "LogPacket_isValid pkt"
    by (simp add: pkt_def LogPacket_isValid_def LogMessage_isValid_def LogMessage_new_def
        LogLevel_values_def)
  have d1: "maxQueueSize d1 = 1 \<and> length (packetQueue d1) = 1"
    by (simp add: d1_def post_logs_def valid distributePacket_def WeightedDistributor_new_def
        num_or_def Let_def)
  then have full: "maxQueueSize d1 \<le> int (length (packetQueue d1))" by simp
  from C2_backpressure [OF full, of _ "''p2''" 2 _ "\<lambda>v. ''json''" pkt] valid
  have "snd (post_logs d1 (Inr pkt) (\<lambda>v. ''json'') ''p2'' 2) = 429" by blast
  with full valid show ?thesis
    unfolding d1_def pkt_def by simp
qed

end
